theory Spec2Isabelle
  imports Main "HOL-Library.Char_ord" "HOL-Library.List_Lexorder" "HOL-Library.AList"
begin

section \<open>Strings as the validator uses them\<close>

text \<open>
  The validator of \<^verbatim>\<open>Sql_final_metrics.py\<close> works on Python strings. They are modelled
  as \<^typ>\<open>string\<close>, read as ASCII text: the character classes below are Python's
  \<^verbatim>\<open>\s\<close>, \<^verbatim>\<open>\w\<close>, \<^verbatim>\<open>str.isdigit\<close> and \<^verbatim>\<open>str.lower\<close> restricted to code points
  below 128. A character outside ASCII is neither a space, a digit nor a word character
  here, and has no case.
\<close>

definition is_upper :: "char \<Rightarrow> bool" where
  "is_upper c = (CHR ''A'' \<le> c \<and> c \<le> CHR ''Z'')"

definition is_lower :: "char \<Rightarrow> bool" where
  "is_lower c = (CHR ''a'' \<le> c \<and> c \<le> CHR ''z'')"

definition is_digit :: "char \<Rightarrow> bool" where
  "is_digit c = (CHR ''0'' \<le> c \<and> c \<le> CHR ''9'')"

text \<open>\<^verbatim>\<open>\w\<close>: letters, digits and the underscore.\<close>

definition is_word :: "char \<Rightarrow> bool" where
  "is_word c = (is_lower c \<or> is_upper c \<or> is_digit c \<or> c = CHR ''_'')"

text \<open>
  \<^verbatim>\<open>\s\<close> and \<^verbatim>\<open>str.strip()\<close>: tab, line feed, vertical tab, form feed, carriage
  return, the four separators 0x1C to 0x1F, and the blank.
\<close>

definition is_space :: "char \<Rightarrow> bool" where
  "is_space c = ((CHR 0x09 \<le> c \<and> c \<le> CHR 0x0D) \<or> (CHR 0x1C \<le> c \<and> c \<le> CHR 0x20))"

text \<open>
  An ASCII capital becomes its small letter by setting bit 5, that is by adding 32
  (\<open>lower_char_plus_32\<close> below).
\<close>

definition lower_char :: "char \<Rightarrow> char" where
  "lower_char c =
     (if is_upper c
      then (case c of Char b0 b1 b2 b3 b4 b5 b6 b7 \<Rightarrow> Char b0 b1 b2 b3 b4 True b6 b7)
      else c)"

text \<open>\<^verbatim>\<open>s.lower()\<close>\<close>

definition lower :: "string \<Rightarrow> string" where
  "lower s = map lower_char s"

text \<open>\<^verbatim>\<open>s.strip()\<close>\<close>

definition strip :: "string \<Rightarrow> string" where
  "strip s = rev (dropWhile is_space (rev (dropWhile is_space s)))"

text \<open>\<^verbatim>\<open>s.isdigit()\<close>: false on the empty string.\<close>

definition isdigit :: "string \<Rightarrow> bool" where
  "isdigit s = (s \<noteq> [] \<and> list_all is_digit s)"

text \<open>\<^verbatim>\<open>s.split(d)\<close> for a one-character separator: never the empty list.\<close>

fun str_split :: "char \<Rightarrow> string \<Rightarrow> string list" where
  "str_split d [] = [[]]"
| "str_split d (c # cs) =
     (if c = d then [] # str_split d cs
      else (case str_split d cs of
              [] \<Rightarrow> [[c]]
            | x # xs \<Rightarrow> (c # x) # xs))"

text \<open>\<^verbatim>\<open>sep.join(xs)\<close>\<close>

fun str_join :: "string \<Rightarrow> string list \<Rightarrow> string" where
  "str_join sep [] = []"
| "str_join sep [x] = x"
| "str_join sep (x # y # ys) = x @ sep @ str_join sep (y # ys)"

fun starts_with :: "string \<Rightarrow> string \<Rightarrow> bool" where
  "starts_with [] s = True"
| "starts_with (p # ps) [] = False"
| "starts_with (p # ps) (c # cs) = (p = c \<and> starts_with ps cs)"

text \<open>\<^verbatim>\<open>needle in haystack\<close>\<close>

fun str_contains :: "string \<Rightarrow> string \<Rightarrow> bool" where
  "str_contains n [] = (n = [])"
| "str_contains n (c # cs) = (starts_with n (c # cs) \<or> str_contains n cs)"

section \<open>Regular expressions with Python's backtracking order\<close>

text \<open>
  The source decides almost everything with \<^verbatim>\<open>re.match\<close>, \<^verbatim>\<open>re.search\<close>,
  \<^verbatim>\<open>re.split\<close> and \<^verbatim>\<open>re.sub\<close>. Each pattern of the source is written below as a
  term of \<open>re\<close>, and one matcher gives them all their meaning. Every \<^verbatim>\<open>*\<close> and \<^verbatim>\<open>+\<close>
  of the source ranges over a single character class, so repetition is over classes:
  \<open>Star\<close> is greedy, \<open>Lazy\<close> is \<^verbatim>\<open>*?\<close>.
\<close>

datatype re =
    Eps
  | Cls "char \<Rightarrow> bool"
  | Seq re re
  | Alt re re
  | Star "char \<Rightarrow> bool"
  | Lazy "char \<Rightarrow> bool"
  | WordB
  | Bos
  | Eos
  | NotAhead re
  | Grp re

text \<open>
  A matcher state: the character just before the position (\<open>None\<close> at the start of
  the string), the text still ahead, and what group 1 captured so far.
\<close>

type_synonym mstate = "char option \<times> string \<times> string option"

definition word_before :: "char option \<Rightarrow> bool" where
  "word_before pv = (case pv of None \<Rightarrow> False | Some c \<Rightarrow> is_word c)"

definition word_ahead :: "string \<Rightarrow> bool" where
  "word_ahead s = (case s of [] \<Rightarrow> False | c # _ \<Rightarrow> is_word c)"

text \<open>Greedy repetition: the longest run first, then one character less, down to none.\<close>

fun star_states :: "(char \<Rightarrow> bool) \<Rightarrow> char option \<Rightarrow> string \<Rightarrow> string option \<Rightarrow> mstate list" where
  "star_states p pv [] g = [(pv, [], g)]"
| "star_states p pv (c # cs) g =
     (if p c then star_states p (Some c) cs g @ [(pv, c # cs, g)] else [(pv, c # cs, g)])"

text \<open>Lazy repetition: nothing first, then one character more at a time.\<close>

fun lazy_states :: "(char \<Rightarrow> bool) \<Rightarrow> char option \<Rightarrow> string \<Rightarrow> string option \<Rightarrow> mstate list" where
  "lazy_states p pv [] g = [(pv, [], g)]"
| "lazy_states p pv (c # cs) g =
     (pv, c # cs, g) # (if p c then lazy_states p (Some c) cs g else [])"

text \<open>
  \<open>ms r st\<close> lists the states in which a match of \<open>r\<close> begun in \<open>st\<close> can end, in the
  order a backtracking matcher tries them; the head is the match Python reports.
  \<open>Eos\<close> is \<^verbatim>\<open>$\<close> without \<^verbatim>\<open>re.MULTILINE\<close>: the end, or just before a final line
  feed.
\<close>

primrec ms :: "re \<Rightarrow> mstate \<Rightarrow> mstate list" where
  "ms Eps st = [st]"
| "ms (Cls p) st =
     (case st of (pv, s, g) \<Rightarrow>
        (case s of [] \<Rightarrow> [] | c # cs \<Rightarrow> if p c then [(Some c, cs, g)] else []))"
| "ms (Seq a b) st = concat (map (ms b) (ms a st))"
| "ms (Alt a b) st = ms a st @ ms b st"
| "ms (Star p) st = (case st of (pv, s, g) \<Rightarrow> star_states p pv s g)"
| "ms (Lazy p) st = (case st of (pv, s, g) \<Rightarrow> lazy_states p pv s g)"
| "ms WordB st =
     (case st of (pv, s, g) \<Rightarrow> if word_before pv \<noteq> word_ahead s then [st] else [])"
| "ms Bos st = (case st of (pv, s, g) \<Rightarrow> if pv = None then [st] else [])"
| "ms Eos st =
     (case st of (pv, s, g) \<Rightarrow> if s = [] \<or> s = [CHR 0x0A] then [st] else [])"
| "ms (NotAhead a) st = (if ms a st = [] then [st] else [])"
| "ms (Grp a) st =
     (case st of (pv, s, g) \<Rightarrow>
        map (\<lambda>(pv', s', g'). (pv', s', Some (take (length s - length s') s))) (ms a st))"

text \<open>\<^verbatim>\<open>re.match(r, s)\<close>: the match anchored at the start, if any.\<close>

definition re_match :: "re \<Rightarrow> string \<Rightarrow> mstate option" where
  "re_match r s = (case ms r (None, s, None) of [] \<Rightarrow> None | st # _ \<Rightarrow> Some st)"

text \<open>
  \<^verbatim>\<open>re.search(r, s)\<close>: the leftmost match. The result is the text from the start of
  the match on, and the state at its end.
\<close>

fun search_from :: "re \<Rightarrow> char option \<Rightarrow> string \<Rightarrow> (string \<times> mstate) option" where
  "search_from r pv [] =
     (case ms r (pv, [], None) of [] \<Rightarrow> None | st # _ \<Rightarrow> Some ([], st))"
| "search_from r pv (c # cs) =
     (case ms r (pv, c # cs, None) of
        [] \<Rightarrow> search_from r (Some c) cs
      | st # _ \<Rightarrow> Some (c # cs, st))"

definition re_search :: "re \<Rightarrow> string \<Rightarrow> (string \<times> mstate) option" where
  "re_search r s = search_from r None s"

definition found :: "re \<Rightarrow> string \<Rightarrow> bool" where
  "found r s = (re_search r s \<noteq> None)"

text \<open>\<^verbatim>\<open>m.group(1)\<close>; the empty string stands for a group that took no part.\<close>

definition group1 :: "mstate \<Rightarrow> string" where
  "group1 st = (case st of (pv, s, g) \<Rightarrow> (case g of None \<Rightarrow> [] | Some t \<Rightarrow> t))"

text \<open>The text left after the match: \<^verbatim>\<open>s[m.end():]\<close>.\<close>

definition rest_of :: "mstate \<Rightarrow> string" where
  "rest_of st = (case st of (pv, s, g) \<Rightarrow> s)"

text \<open>\<^verbatim>\<open>m.group(0)\<close> of a search result.\<close>

definition group0 :: "string \<times> mstate \<Rightarrow> string" where
  "group0 m = (case m of (s, st) \<Rightarrow> take (length s - length (rest_of st)) s)"

text \<open>
  \<^verbatim>\<open>re.split(r, s)\<close>: the pieces between successive matches. No pattern the source
  splits or substitutes with can match the empty string; a match that consumed nothing
  is passed over.
\<close>

function split_from :: "re \<Rightarrow> char option \<Rightarrow> string \<Rightarrow> string \<Rightarrow> string list" where
  "split_from r pv s acc =
     (case ms r (pv, s, None) of
        [] \<Rightarrow> (case s of [] \<Rightarrow> [rev acc] | c # cs \<Rightarrow> split_from r (Some c) cs (c # acc))
      | st # _ \<Rightarrow>
          (if length (rest_of st) < length s
           then rev acc # split_from r (fst st) (rest_of st) []
           else (case s of [] \<Rightarrow> [rev acc] | c # cs \<Rightarrow> split_from r (Some c) cs (c # acc))))"
  by pat_completeness auto
termination
  by (relation "measure (\<lambda>(r, pv, s, acc). length s)") auto

definition re_split :: "re \<Rightarrow> string \<Rightarrow> string list" where
  "re_split r s = split_from r None s []"

text \<open>\<^verbatim>\<open>re.sub(r, '', s)\<close>: what is left when every match is cut out.\<close>

definition re_sub_empty :: "re \<Rightarrow> string \<Rightarrow> string" where
  "re_sub_empty r s = concat (re_split r s)"

subsection \<open>Building patterns\<close>

definition chr :: "char \<Rightarrow> re" where
  "chr x = Cls (\<lambda>c. c = x)"

text \<open>A literal character under \<^verbatim>\<open>re.IGNORECASE\<close>.\<close>

definition ci :: "char \<Rightarrow> re" where
  "ci x = Cls (\<lambda>c. lower_char c = lower_char x)"

fun seqs :: "re list \<Rightarrow> re" where
  "seqs [] = Eps"
| "seqs [r] = r"
| "seqs (r # rs) = Seq r (seqs rs)"

fun alts :: "re list \<Rightarrow> re" where
  "alts [] = NotAhead Eps"
| "alts [r] = r"
| "alts (r # rs) = Alt r (alts rs)"

definition lit :: "string \<Rightarrow> re" where
  "lit w = seqs (map ci w)"

definition lit_cs :: "string \<Rightarrow> re" where
  "lit_cs w = seqs (map chr w)"

text \<open>\<^verbatim>\<open>+\<close> on a character class.\<close>

definition many1 :: "(char \<Rightarrow> bool) \<Rightarrow> re" where
  "many1 p = Seq (Cls p) (Star p)"

definition opt :: "re \<Rightarrow> re" where
  "opt r = Alt r Eps"

text \<open>\<^verbatim>\<open>.\<close> without \<^verbatim>\<open>re.DOTALL\<close>, and with it.\<close>

definition dot :: "char \<Rightarrow> bool" where
  "dot c = (c \<noteq> CHR 0x0A)"

definition any_char :: "char \<Rightarrow> bool" where
  "any_char c = True"

section \<open>Extracting the schema mapping from DDL text\<close>

text \<open>The characters \<^verbatim>\<open>re.sub(r'[`"\[\]]', '', name)\<close> deletes.\<close>

definition quote_char :: "char \<Rightarrow> bool" where
  "quote_char c = (c = CHR 0x60 \<or> c = CHR 0x22 \<or> c = CHR ''['' \<or> c = CHR '']'')"

text \<open>The class \<^verbatim>\<open>[`"\[\w]\<close> of column names, and \<^verbatim>\<open>[`"\[\w\.]\<close> of table names.\<close>

definition ident_char :: "char \<Rightarrow> bool" where
  "ident_char c = (c = CHR 0x60 \<or> c = CHR 0x22 \<or> c = CHR ''['' \<or> is_word c)"

definition table_char :: "char \<Rightarrow> bool" where
  "table_char c = (ident_char c \<or> c = CHR ''.'')"

text \<open>
  \<^verbatim>\<open>\s*CREATE\s+(?:OR\s+REPLACE\s+)?(?:TABLE|VIEW)\s+(?:IF\s+NOT\s+EXISTS\s+)?([`"\[\w\.]+)(?:\s+AS\b)?\<close>,
  ignoring case.
\<close>

definition create_re :: re where
  "create_re = seqs
     [Star is_space, lit ''CREATE'', many1 is_space,
      opt (seqs [lit ''OR'', many1 is_space, lit ''REPLACE'', many1 is_space]),
      Alt (lit ''TABLE'') (lit ''VIEW''), many1 is_space,
      opt (seqs [lit ''IF'', many1 is_space, lit ''NOT'', many1 is_space,
                 lit ''EXISTS'', many1 is_space]),
      Grp (many1 table_char),
      opt (seqs [many1 is_space, lit ''AS'', WordB])]"

text \<open>
  \<^verbatim>\<open>\bAS\b\s*\(\s*SELECT\s+(.*?)(?:\bFROM\b|\);?|$)\<close>, ignoring case, with
  \<^verbatim>\<open>re.DOTALL\<close>.
\<close>

definition view_select_re :: re where
  "view_select_re = seqs
     [WordB, lit ''AS'', WordB, Star is_space, chr CHR ''('', Star is_space,
      lit ''SELECT'', many1 is_space, Grp (Lazy any_char),
      alts [seqs [WordB, lit ''FROM'', WordB],
            seqs [chr CHR '')'', opt (chr CHR '';'')],
            Eos]]"

text \<open>\<^verbatim>\<open>,\s*\<close>\<close>

definition comma_re :: re where
  "comma_re = Seq (chr CHR '','') (Star is_space)"

text \<open>\<^verbatim>\<open>\bAS\b\s+([`"\[\w]+)\<close>, ignoring case.\<close>

definition alias_re :: re where
  "alias_re = seqs [WordB, lit ''AS'', WordB, many1 is_space, Grp (many1 ident_char)]"

text \<open>\<^verbatim>\<open>\.\<close>\<close>

definition dot_re :: re where
  "dot_re = chr CHR ''.''"

text \<open>\<^verbatim>\<open>.*\(|\).*\<close>\<close>

definition call_wrapper_re :: re where
  "call_wrapper_re = Alt (Seq (Star dot) (chr CHR ''(''))  (Seq (chr CHR '')'') (Star dot))"

text \<open>\<^verbatim>\<open>[`"\[\]]\<close>\<close>

definition quote_re :: re where
  "quote_re = Cls quote_char"

text \<open>\<^verbatim>\<open>\(\s*(.*?)\s*\)[^)]*$\<close> with \<^verbatim>\<open>re.DOTALL\<close>.\<close>

definition columns_re :: re where
  "columns_re = seqs
     [chr CHR ''('', Star is_space, Grp (Lazy any_char), Star is_space, chr CHR '')'',
      Star (\<lambda>c. c \<noteq> CHR '')''), Eos]"

text \<open>
  \<^verbatim>\<open>\s*(CONSTRAINT|PRIMARY\s+KEY|FOREIGN\s+KEY|UNIQUE|CHECK|INDEX)\<close>, ignoring case.
\<close>

definition constraint_re :: re where
  "constraint_re = Seq (Star is_space)
     (alts [lit ''CONSTRAINT'',
            seqs [lit ''PRIMARY'', many1 is_space, lit ''KEY''],
            seqs [lit ''FOREIGN'', many1 is_space, lit ''KEY''],
            lit ''UNIQUE'', lit ''CHECK'', lit ''INDEX''])"

text \<open>\<^verbatim>\<open>\s*([`"\[\w]+)\<close>\<close>

definition colname_re :: re where
  "colname_re = Seq (Star is_space) (Grp (many1 ident_char))"

text \<open>
  The body of the loop over the select list of a view (source lines 35 to 47): the
  output name of one column expression, appended to \<open>columns\<close> unless it is empty, a
  star, or already there.
\<close>

definition view_col_name :: "string \<Rightarrow> string" where
  "view_col_name col0 =
     (let col = strip col0;
          col_name =
            (case re_search alias_re col of
               Some m \<Rightarrow> group1 (snd m)
             | None \<Rightarrow> strip (re_sub_empty call_wrapper_re (strip (last (re_split dot_re col)))))
      in lower (re_sub_empty quote_re col_name))"

definition add_view_col :: "string \<Rightarrow> string list \<Rightarrow> string list" where
  "add_view_col col0 columns =
     (let col_name = view_col_name col0
      in if col_name \<noteq> [] \<and> col_name \<notin> set columns \<and> col_name \<noteq> ''*''
         then columns @ [col_name] else columns)"

text \<open>
  The character loop of the table branch (source lines 56 to 64): the state is the
  list of finished definitions, the definition being read, and the parenthesis level,
  an integer that may go below zero.
\<close>

fun split_defs :: "string \<Rightarrow> string list \<Rightarrow> string \<Rightarrow> int \<Rightarrow> string list \<times> string" where
  "split_defs [] col_defs current_def paren_level = (col_defs, current_def)"
| "split_defs (c # cs) col_defs current_def paren_level =
     (let level = (if c = CHR ''('' then paren_level + 1
                   else if c = CHR '')'' then paren_level - 1
                   else paren_level)
      in if c = CHR '','' \<and> level = 0
         then split_defs cs (col_defs @ [strip current_def]) [] level
         else split_defs cs col_defs (current_def @ [c]) level)"

definition col_defs_of :: "string \<Rightarrow> string list" where
  "col_defs_of columns_def =
     (case split_defs columns_def [] [] 0 of
        (col_defs, current_def) \<Rightarrow>
          if strip current_def \<noteq> [] then col_defs @ [strip current_def] else col_defs)"

text \<open>The body of the loop over column definitions (source lines 69 to 79).\<close>

definition add_table_col :: "string \<Rightarrow> string list \<Rightarrow> string list" where
  "add_table_col col_def columns =
     (if re_match constraint_re col_def \<noteq> None then columns
      else (case re_match colname_re col_def of
              None \<Rightarrow> columns
            | Some m \<Rightarrow>
                (let col_name = lower (re_sub_empty quote_re (group1 m))
                 in if col_name \<notin> set columns then columns @ [col_name] else columns)))"

text \<open>The column list of one statement (source lines 27 to 79).\<close>

definition statement_columns :: "string \<Rightarrow> string list" where
  "statement_columns statement =
     (case re_search view_select_re statement of
        Some m \<Rightarrow>
          fold add_view_col (re_split comma_re (strip (group1 (snd m)))) [''*'']
      | None \<Rightarrow>
          (case re_search columns_re statement of
             None \<Rightarrow> [''*'']
           | Some m \<Rightarrow> fold add_table_col (col_defs_of (strip (group1 (snd m)))) [''*'']))"

text \<open>The table name as normalised on source lines 22 to 25.\<close>

definition table_name_of :: "string \<Rightarrow> string" where
  "table_name_of name =
     (let table_name = (if CHR ''.'' \<in> set name then last (str_split CHR ''.'' name) else name)
      in lower (re_sub_empty quote_re table_name))"

text \<open>
  A Python dictionary is an association list in insertion order with one pair per key:
  \<^verbatim>\<open>d[k] = v\<close> is \<^const>\<open>AList.update\<close>, \<^verbatim>\<open>k in d\<close> asks whether \<^const>\<open>map_of\<close>
  finds the key, \<^verbatim>\<open>d.keys()\<close> is the list of first components.
\<close>

type_synonym schema_mapping = "(string \<times> string list) list"

text \<open>One turn of the loop over statements (source lines 11 to 82).\<close>

definition add_statement :: "string \<Rightarrow> schema_mapping \<Rightarrow> schema_mapping" where
  "add_statement statement0 result_mapping =
     (let statement = strip statement0
      in if statement = [] then result_mapping
         else (case re_match create_re statement of
                 None \<Rightarrow> result_mapping
               | Some m \<Rightarrow>
                   (let table_name = table_name_of (group1 m);
                        columns = statement_columns statement
                    in if length columns > 1
                       then AList.update table_name columns result_mapping
                       else result_mapping)))"

definition generate_table_mapping_from_create_statements :: "string \<Rightarrow> schema_mapping" where
  "generate_table_mapping_from_create_statements create_statements =
     fold add_statement (str_split CHR '';'' create_statements) []"

section \<open>The safety inspector\<close>

text \<open>\<^verbatim>\<open>\s*SELECT\<close>, ignoring case.\<close>

definition select_re :: re where
  "select_re = Seq (Star is_space) (lit ''SELECT'')"

text \<open>
  \<^verbatim>\<open>\s*WITH\s+.*?\s+AS\s*\(.*?\)\s*SELECT\<close>, ignoring case, with \<^verbatim>\<open>re.DOTALL\<close>.
\<close>

definition with_re :: re where
  "with_re = seqs
     [Star is_space, lit ''WITH'', many1 is_space, Lazy any_char, many1 is_space,
      lit ''AS'', Star is_space, chr CHR ''('', Lazy any_char, chr CHR '')'',
      Star is_space, lit ''SELECT'']"

text \<open>\<^verbatim>\<open>\bKEYWORD\b\<close>, ignoring case.\<close>

definition keyword_re :: "string \<Rightarrow> re" where
  "keyword_re keyword = seqs [WordB, lit keyword, WordB]"

definition disallowed_keywords :: "string list" where
  "disallowed_keywords =
     [''DROP'', ''DELETE'', ''TRUNCATE'', ''UPDATE'', ''INSERT'', ''ALTER'', ''CREATE'',
      ''GRANT'', ''REVOKE'']"

text \<open>
  The list \<^verbatim>\<open>['xp_cmdshell', 'exec(\s|\()', 'sp_', 'xp_', ';\s*--']\<close>, each searched
  ignoring case.
\<close>

definition unsafe_keywords :: "re list" where
  "unsafe_keywords =
     [lit ''xp_cmdshell'',
      Seq (lit ''exec'') (Alt (Cls is_space) (chr CHR ''('')),
      lit ''sp_'',
      lit ''xp_'',
      seqs [chr CHR '';'', Star is_space, lit ''--'']]"

text \<open>\<^verbatim>\<open>\b(LIMIT|OFFSET)\b\<close> and \<^verbatim>\<open>\bORDER\s+BY\b\<close>, ignoring case.\<close>

definition limit_re :: re where
  "limit_re = seqs [WordB, Alt (lit ''LIMIT'') (lit ''OFFSET''), WordB]"

definition order_by_re :: re where
  "order_by_re = seqs [WordB, lit ''ORDER'', many1 is_space, lit ''BY'', WordB]"

text \<open>\<^verbatim>\<open>;(?!\s*(--.*)?$)\<close>, with no flag.\<close>

definition semicolon_re :: re where
  "semicolon_re = Seq (chr CHR '';'')
     (NotAhead (seqs [Star is_space, opt (Seq (lit_cs ''--'') (Star dot)), Eos]))"

text \<open>
  \<^verbatim>\<open>\bJOIN\s+([\w.]+)(\s+\w+)?(?!\s+(ON|USING)\b)\<close>, ignoring case. The source asks only
  whether it matches and where the first match ends, so its groups capture nothing here.
\<close>

definition join_pattern :: re where
  "join_pattern = seqs
     [WordB, lit ''JOIN'', many1 is_space, many1 (\<lambda>c. is_word c \<or> c = CHR ''.''),
      opt (Seq (many1 is_space) (many1 is_word)),
      NotAhead (seqs [many1 is_space, Alt (lit ''ON'') (lit ''USING''), WordB])]"

text \<open>
  \<^verbatim>\<open>\bCROSS\s+JOIN\b\<close>, \<^verbatim>\<open>\bJOIN\b\<close>, \<^verbatim>\<open>\b(ON|USING)\b\<close> and \<^verbatim>\<open>\bUNION\b\<close>,
  ignoring case.
\<close>

definition cross_join_re :: re where
  "cross_join_re = seqs [WordB, lit ''CROSS'', many1 is_space, lit ''JOIN'', WordB]"

definition on_using_re :: re where
  "on_using_re = seqs [WordB, Alt (lit ''ON'') (lit ''USING''), WordB]"

text \<open>The single quote of the messages.\<close>

definition sq :: string where
  "sq = [CHR 0x27]"

text \<open>Source lines 91 to 93.\<close>

definition start_issues :: "string \<Rightarrow> string list" where
  "start_issues query =
     (if re_match select_re query \<noteq> None \<or> re_match with_re query \<noteq> None then []
      else [''Only SELECT statements or CTEs (WITH...SELECT) are allowed.''])"

text \<open>Source lines 95 to 98.\<close>

definition keyword_issues :: "string \<Rightarrow> string list" where
  "keyword_issues query =
     concat (map (\<lambda>keyword.
        if found (keyword_re keyword) query
        then [''Potential disallowed operation detected: '' @ sq @ keyword @ sq @ ''.'']
        else []) disallowed_keywords)"

text \<open>Source lines 100 to 105: the message quotes the matched text, stripped.\<close>

definition unsafe_issues :: "string \<Rightarrow> string list" where
  "unsafe_issues query =
     concat (map (\<lambda>keyword_pattern.
        (case re_search keyword_pattern query of
           None \<Rightarrow> []
         | Some m \<Rightarrow>
             [''Potentially unsafe SQL pattern '' @ sq @ strip (group0 m) @ sq @ '' detected.'']))
        unsafe_keywords)"

text \<open>Source lines 107 to 109.\<close>

definition limit_issues :: "string \<Rightarrow> string list" where
  "limit_issues query =
     (if found limit_re query \<and> \<not> found order_by_re query
      then [''Use of LIMIT/OFFSET without ORDER BY may result in unpredictable results.'']
      else [])"

text \<open>
  Source lines 111 to 118. The test on line 114 looks in each issue found so far for the
  six characters \<^verbatim>\<open>;\s*--\<close>, the pattern's own text: in a Python string literal that
  is not raw, \<^verbatim>\<open>\s\<close> stays a backslash and an s.
\<close>

definition semicolon_marker :: string where
  "semicolon_marker = [CHR '';'', CHR 0x5C, CHR ''s'', CHR ''*'', CHR ''-'', CHR ''-'']"

definition is_already_flagged :: "string list \<Rightarrow> bool" where
  "is_already_flagged issues =
     list_ex (\<lambda>issue. str_contains semicolon_marker issue \<and>
                       str_contains ''Potentially unsafe SQL pattern'' issue) issues"

definition semicolon_issues :: "string \<Rightarrow> string list \<Rightarrow> string list" where
  "semicolon_issues query issues =
     (if found semicolon_re (strip query) \<and> \<not> is_already_flagged issues
      then [''Avoid the use of semicolons (;) except possibly at the very end of the query.'']
      else [])"

text \<open>
  Source lines 120 to 130. \<^verbatim>\<open>re.findall\<close> is non-empty exactly when \<^verbatim>\<open>re.search\<close>
  finds a match; the area searched for \<^verbatim>\<open>ON\<close> or \<^verbatim>\<open>USING\<close> runs from the end of the
  first match to the next \<^verbatim>\<open>JOIN\<close>, or to the end.
\<close>

definition join_issues :: "string \<Rightarrow> string list" where
  "join_issues query =
     (case re_search join_pattern query of
        None \<Rightarrow> []
      | Some join_match \<Rightarrow>
          if found cross_join_re query then []
          else (let substring_after_join = rest_of (snd join_match);
                    search_area =
                      (case re_search (keyword_re ''JOIN'') substring_after_join of
                         None \<Rightarrow> substring_after_join
                       | Some next_join_match \<Rightarrow>
                           take (length substring_after_join - length (fst next_join_match))
                             substring_after_join)
                in if found on_using_re search_area then []
                   else [''Use of JOIN without an ON/USING clause may result in a Cartesian product. Specify join conditions or use CROSS JOIN.'']))"

text \<open>Source lines 132 to 133.\<close>

definition union_issues :: "string \<Rightarrow> string list" where
  "union_issues query =
     (if found (keyword_re ''UNION'') query
      then [''UNION queries detected. Ensure column counts and types match in each SELECT.'']
      else [])"

text \<open>\<open>self.issues\<close> when line 135 is reached.\<close>

definition issues_of :: "string \<Rightarrow> string list" where
  "issues_of query =
     (let issues = start_issues query @ keyword_issues query @ unsafe_issues query
                   @ limit_issues query
      in issues @ semicolon_issues query issues @ join_issues query @ union_issues query)"

definition issues_str :: "string list \<Rightarrow> string" where
  "issues_str issues =
     ''Detected issues while validating SQL query:'' @ [CHR 0x0A]
     @ str_join [CHR 0x0A] (map (\<lambda>issue. ''- '' @ issue) issues)"

text \<open>Source lines 135 to 139: the report, or the query itself when there is no issue.\<close>

definition inspect_query :: "string \<Rightarrow> string" where
  "inspect_query query =
     (let issues = issues_of query in if issues \<noteq> [] then issues_str issues else query)"

section \<open>The schema conformance checker\<close>

text \<open>
  \<^verbatim>\<open>^(COUNT|SUM|AVG|MIN|MAX)\s*\(\s*(?:\*|\w+|\bDISTINCT\b\s+\w+)\s*\)\<close>, ignoring case.
  It has no \<^verbatim>\<open>$\<close>: \<^verbatim>\<open>agg_pattern.match\<close> asks whether the text begins with such a call.
\<close>

definition agg_pattern :: re where
  "agg_pattern = seqs
     [Bos, alts [lit ''COUNT'', lit ''SUM'', lit ''AVG'', lit ''MIN'', lit ''MAX''],
      Star is_space, chr CHR ''('', Star is_space,
      alts [chr CHR ''*'', many1 is_word,
            seqs [WordB, lit ''DISTINCT'', WordB, many1 is_space, many1 is_word]],
      Star is_space, chr CHR '')'']"

text \<open>\<^verbatim>\<open>^\w+\(\s*\)$\<close>\<close>

definition call_re :: re where
  "call_re = seqs [Bos, many1 is_word, chr CHR ''('', Star is_space, chr CHR '')'', Eos]"

text \<open>
  What one raw column adds to \<open>cleaned_columns_for_validation\<close> (source lines 147 to
  163). \<^verbatim>\<open>col_raw.split('.', 1)\<close> cuts at the first dot, \<^verbatim>\<open>col_raw.split('.')[-1]\<close>
  keeps what follows the last one.
\<close>

definition clean_column :: "bool \<Rightarrow> string list \<Rightarrow> string \<Rightarrow> string list" where
  "clean_column ctes_present known_prefixes col_raw =
     (if re_match agg_pattern col_raw \<noteq> None then []
      else if ctes_present then
        (if CHR ''.'' \<in> set col_raw then
           (let prefix = lower (takeWhile (\<lambda>c. c \<noteq> CHR ''.'') col_raw);
                col_name = drop 1 (dropWhile (\<lambda>c. c \<noteq> CHR ''.'') col_raw)
            in if prefix \<in> set known_prefixes then [lower col_name] else [])
         else [])
      else if CHR ''.'' \<in> set col_raw then [lower (last (str_split CHR ''.'' col_raw))]
      else if col_raw \<noteq> ''*'' then [lower col_raw]
      else [])"

text \<open>
  The two sets of known prefixes are lists here: the function only asks what is in them.
  \<^verbatim>\<open>list(set(xs))\<close> keeps one copy of each element in an order Python does not fix;
  the model keeps the order of first occurrence.
\<close>

definition check_and_clean_columns ::
  "string list \<Rightarrow> bool \<Rightarrow> string list \<Rightarrow> string list \<Rightarrow> string list" where
  "check_and_clean_columns columns_raw ctes_present known_base_table_aliases known_base_table_names =
     (let known_prefixes = known_base_table_aliases @ known_base_table_names
      in remdups (concat (map (clean_column ctes_present known_prefixes) columns_raw)))"

text \<open>
  The loop of source lines 171 to 176: the columns valid for the query, and the tables
  the mapping does not know, each once, in the order met.
\<close>

fun scan_tables :: "schema_mapping \<Rightarrow> string list \<Rightarrow> string list \<Rightarrow> string list
    \<Rightarrow> string list \<times> string list" where
  "scan_tables table_column_mapping [] valid_columns unknown_tables =
     (valid_columns, unknown_tables)"
| "scan_tables table_column_mapping (table_name_lower # ts) valid_columns unknown_tables =
     (case map_of table_column_mapping table_name_lower of
        Some cols \<Rightarrow>
          scan_tables table_column_mapping ts (valid_columns @ map lower cols) unknown_tables
      | None \<Rightarrow>
          scan_tables table_column_mapping ts valid_columns
            (if table_name_lower \<notin> set unknown_tables
             then unknown_tables @ [table_name_lower] else unknown_tables))"

text \<open>
  \<^verbatim>\<open>sorted(list(set(xs)))\<close> is \<open>sort (remdups xs)\<close>; Python orders strings by code
  point, character by character.
\<close>

definition validate_columns ::
  "string list \<Rightarrow> string list \<Rightarrow> schema_mapping \<Rightarrow> bool \<times> string list" where
  "validate_columns extracted_tables cleaned_columns_for_validation table_column_mapping =
     (let extracted_tables_lower = map lower extracted_tables
      in case scan_tables table_column_mapping extracted_tables_lower [''*''] [] of
           (valid_columns_for_query, unknown_tables) \<Rightarrow>
             if unknown_tables \<noteq> []
             then (False, [''Query references undefined tables: ''
                            @ str_join '', '' (sort unknown_tables)])
             else (let invalid_columns =
                         filter (\<lambda>col. col \<notin> set valid_columns_for_query \<and> col \<noteq> ''*'')
                           cleaned_columns_for_validation
                   in if invalid_columns \<noteq> []
                      then (False,
                            [''Columns ['' @ str_join '', '' (sort (remdups invalid_columns))
                             @ ''] are not defined for the referenced tables [''
                             @ str_join '', '' (sort (remdups extracted_tables_lower)) @ '']''])
                      else (True, [])))"

section \<open>The validation pipeline\<close>

text \<open>
  \<^verbatim>\<open>sql_metadata.Parser\<close> is a library, not code of this repository: what it reports for
  a query is a parameter of the model. Its attributes are computed when read and any of
  them may raise. \<open>Inl e\<close> is an exception whose text is \<open>e\<close>; the parser as a whole
  fails when the constructor, \<^verbatim>\<open>tables\<close>, \<^verbatim>\<open>columns\<close> or \<^verbatim>\<open>with_names\<close> raises, and
  \<^verbatim>\<open>tables_aliases\<close>, read later, may fail on its own.
\<close>

record parser_facts =
  tables :: "string list"
  columns :: "string list"
  with_names :: "string list"
  tables_aliases :: "string + (string \<times> string) list"

type_synonym parser = "string \<Rightarrow> string + parser_facts"

text \<open>The handler of source lines 251 to 255.\<close>

definition on_exception :: "string \<Rightarrow> string" where
  "on_exception e =
     (if str_contains ''Unknown token'' e \<or> str_contains ''Parse'' e
         \<or> str_contains ''Syntax error'' e
      then ''Validation Error: Failed to parse the query structure. Check syntax. (Details: ''
           @ e @ '')''
      else ''Validation Error: An unexpected issue occurred during validation. (Details: ''
           @ e @ '')'')"

text \<open>The test of source lines 213 and 214 on one projected column.\<close>

definition simple_column :: "string \<Rightarrow> bool" where
  "simple_column c =
     (isdigit c \<or> c = ''*'' \<or> re_match agg_pattern c \<noteq> None \<or> re_match call_re c \<noteq> None)"

text \<open>
  The keys of the dictionary \<open>base_table_aliases\<close> of source lines 224 to 228: the aliases,
  in lower case, of the tables that are keys of the mapping.
\<close>

definition base_table_aliases :: "schema_mapping \<Rightarrow> (string \<times> string) list \<Rightarrow> string list" where
  "base_table_aliases current_schema_mapping aliases =
     map (\<lambda>(alias, table). lower alias)
       (filter (\<lambda>(alias, table). lower table \<in> set (map fst current_schema_mapping)) aliases)"

text \<open>Source lines 222 to 249, once the parser has answered.\<close>

definition conformance :: "string \<Rightarrow> schema_mapping \<Rightarrow> string list \<Rightarrow> string list \<Rightarrow> bool
    \<Rightarrow> (string \<times> string) list \<Rightarrow> string" where
  "conformance query current_schema_mapping tables_from_parser columns_raw ctes_present aliases =
     (let schema_defined_base_tables = map fst current_schema_mapping;
          known_base_table_aliases = base_table_aliases current_schema_mapping aliases;
          columns_cleaned_for_validation =
            check_and_clean_columns columns_raw ctes_present known_base_table_aliases
              schema_defined_base_tables;
          actual_base_tables_to_validate =
            filter (\<lambda>t_parser. t_parser \<in> set schema_defined_base_tables) tables_from_parser
      in case validate_columns actual_base_tables_to_validate columns_cleaned_for_validation
                current_schema_mapping of
           (is_valid, validation_issues) \<Rightarrow>
             if is_valid then query
             else ''Validation Error: '' @ str_join '', '' validation_issues)"

definition query_validator :: "parser \<Rightarrow> string \<Rightarrow> schema_mapping \<Rightarrow> string" where
  "query_validator parse query current_schema_mapping =
     (let output_query_or_error = inspect_query query
      in if output_query_or_error \<noteq> query then output_query_or_error
         else (case parse query of
                 Inl e \<Rightarrow> on_exception e
               | Inr facts \<Rightarrow>
                   (let tables_from_parser = map lower (tables facts);
                        columns_raw = columns facts;
                        ctes_present = (with_names facts \<noteq> [])
                    in if tables_from_parser = [] \<and> \<not> ctes_present
                       then (if list_all simple_column columns_raw then query
                             else ''Validation Error: Columns specified without a valid table or CTE reference.'')
                       else (case tables_aliases facts of
                               Inl e \<Rightarrow> on_exception e
                             | Inr aliases \<Rightarrow>
                                 conformance query current_schema_mapping tables_from_parser
                                   columns_raw ctes_present aliases))))"

section \<open>Stand-ins for the parser, and the texts of the scenarios\<close>

text \<open>A parser that reports the same facts for every query, and one that always raises.\<close>

definition parser_of :: "parser_facts \<Rightarrow> parser" where
  "parser_of facts query = Inr facts"

definition raising :: "string \<Rightarrow> parser" where
  "raising e query = Inl e"

text \<open>The schema of scenarios 1, 2 and 4 of the specification, and the view of scenario 6.\<close>

definition customers_ddl :: string where
  "customers_ddl =
     ''CREATE TABLE customers(customer_id INT, first_name VARCHAR(50), email VARCHAR(100));''"

definition customers_schema :: schema_mapping where
  "customers_schema = [(''customers'', [''*'', ''customer_id'', ''first_name'', ''email''])]"

text \<open>
  The report of the inspector on a text that is not a query and trips no other rule: the
  header and the one issue of source line 93.
\<close>

definition self_report :: string where
  "self_report = issues_str [''Only SELECT statements or CTEs (WITH...SELECT) are allowed.'']"

text \<open>What the parser reports for a query that names no table and no column.\<close>

definition no_facts :: parser_facts where
  "no_facts = \<lparr>tables = [], columns = [], with_names = [], tables_aliases = Inr []\<rparr>"

text \<open>A query that selects a string literal.\<close>

definition literal_query :: string where
  "literal_query = ''SELECT '' @ sq @ ''Query references undefined tables'' @ sq"



definition discount_facts :: parser_facts where
  "discount_facts = \<lparr>tables = [''customers''], columns = [''customer_id'', ''discount_rate''],
                      with_names = [], tables_aliases = Inr []\<rparr>"


definition cte_query :: string where
  "cte_query = ''WITH r AS (SELECT 1 AS total) SELECT total, c.email, r.total FROM r, customers c''"

definition cte_facts :: parser_facts where
  "cte_facts = \<lparr>tables = [''customers''], columns = [''total'', ''c.email'', ''r.total''],
                 with_names = [''r''], tables_aliases = Inr [(''c'', ''customers'')]\<rparr>"





text \<open>Two statements on two lines, the first closed by a semicolon and a comment.\<close>

definition semicolon_query :: string where
  "semicolon_query = ''SELECT 1; -- first'' @ [CHR 0x0A] @ ''SELECT 2''"

section \<open>Predicates the theorems are stated with\<close>



text \<open>A raw column with a qualifier: \<^verbatim>\<open>'.' in col_raw\<close>.\<close>

definition has_dot :: "string \<Rightarrow> bool" where
  "has_dot c = (CHR ''.'' \<in> set c)"

subsection \<open>Projected columns, in the words of the specification\<close>











subsection \<open>A declarative reading of the patterns\<close>

text \<open>The character before the position once the text \<open>u\<close> has been read.\<close>

definition adv :: "char option \<Rightarrow> string \<Rightarrow> char option" where
  "adv pv u = (if u = [] then pv else Some (last u))"

text \<open>
  \<open>sem r pv u s'\<close>: the pattern \<open>r\<close> matches the text \<open>u\<close> when \<open>pv\<close> is the character
  before it and \<open>s'\<close> the text after it. It says which texts match, not in which order a
  matcher finds them.
\<close>

primrec sem :: "re \<Rightarrow> char option \<Rightarrow> string \<Rightarrow> string \<Rightarrow> bool" where
  "sem Eps pv u s' = (u = [])"
| "sem (Cls p) pv u s' = (\<exists>c. u = [c] \<and> p c)"
| "sem (Seq a b) pv u s' =
     (\<exists>v w. u = v @ w \<and> sem a pv v (w @ s') \<and> sem b (adv pv v) w s')"
| "sem (Alt a b) pv u s' = (sem a pv u s' \<or> sem b pv u s')"
| "sem (Star p) pv u s' = list_all p u"
| "sem (Lazy p) pv u s' = list_all p u"
| "sem WordB pv u s' = (u = [] \<and> word_before pv \<noteq> word_ahead s')"
| "sem Bos pv u s' = (u = [] \<and> pv = None)"
| "sem Eos pv u s' = (u = [] \<and> (s' = [] \<or> s' = [CHR 0x0A]))"
| "sem (NotAhead a) pv u s' = (u = [] \<and> \<not> (\<exists>v w. s' = v @ w \<and> sem a pv v w))"
| "sem (Grp a) pv u s' = sem a pv u s'"

text \<open>The characters a text matched by a pattern can hold.\<close>

primrec alphabet :: "re \<Rightarrow> char \<Rightarrow> bool" where
  "alphabet Eps c = False"
| "alphabet (Cls p) c = p c"
| "alphabet (Seq a b) c = (alphabet a c \<or> alphabet b c)"
| "alphabet (Alt a b) c = (alphabet a c \<or> alphabet b c)"
| "alphabet (Star p) c = p c"
| "alphabet (Lazy p) c = p c"
| "alphabet WordB c = False"
| "alphabet Bos c = False"
| "alphabet Eos c = False"
| "alphabet (NotAhead a) c = False"
| "alphabet (Grp a) c = alphabet a c"

section \<open>Facts about strings and the matcher\<close>

declare split_from.simps [simp del]

lemma not_upper_lower_char: "\<not> is_upper (lower_char c)"
  by (cases c) (auto simp add: lower_char_def is_upper_def)

lemma lower_char_idem: "lower_char (lower_char c) = lower_char c"
  using not_upper_lower_char [of c] by (simp add: lower_char_def [of "lower_char c"])

lemma lower_idem: "lower (lower s) = lower s"
  by (simp add: lower_def lower_char_idem)

lemma lower_char_plus_32:
  "lower_char c = (if is_upper c then char_of (of_char c + (32::nat)) else c)"
  by (cases c) (auto simp add: lower_char_def is_upper_def char_of_def bit_0)









section \<open>The extracted mapping\<close>












text \<open>The mapping is a dictionary: no table name occurs twice.\<close>

lemma add_statement_distinct:
  "distinct (map fst m) \<Longrightarrow> distinct (map fst (add_statement statement m))"
  by (auto simp add: add_statement_def Let_def distinct_update split: option.splits)

lemma generate_distinct:
  "distinct (map fst (generate_table_mapping_from_create_statements ddl))"
proof -
  have "distinct (map fst m) \<Longrightarrow> distinct (map fst (fold add_statement xs m))" for xs m
    by (induction xs arbitrary: m) (auto simp add: add_statement_distinct)
  then show ?thesis
    by (simp add: generate_table_mapping_from_create_statements_def)
qed

lemma customers_mapping:
  "generate_table_mapping_from_create_statements customers_ddl = customers_schema"
  by code_simp




section \<open>The pipeline: which verdicts can come out\<close>

lemma inspect_query_accepts: "issues_of q = [] \<Longrightarrow> inspect_query q = q"
  by (simp add: inspect_query_def)

lemma inspect_query_rejects:
  "issues_of q \<noteq> [] \<Longrightarrow> inspect_query q = issues_str (issues_of q)"
  by (simp add: inspect_query_def Let_def)

lemma starts_with_iff: "starts_with p s \<longleftrightarrow> (\<exists>r. s = p @ r)"
  by (induction p s rule: starts_with.induct) auto

text \<open>A text that begins with a V is neither a SELECT nor a CTE, so it is reported.\<close>

lemma start_issues_V: "start_issues (CHR ''V'' # r) \<noteq> []"
  by (simp add: start_issues_def re_match_def select_re_def with_re_def lit_def ci_def
      is_space_def lower_char_def is_upper_def)

lemma inspect_query_V: "inspect_query (CHR ''V'' # r) \<noteq> CHR ''V'' # r"
proof -
  have "issues_of (CHR ''V'' # r) \<noteq> []"
    using start_issues_V [of r] by (simp add: issues_of_def Let_def)
  then show ?thesis
    by (simp add: inspect_query_rejects issues_str_def)
qed

lemma scan_tables_known:
  "list_all (\<lambda>t. map_of S t \<noteq> None) ts \<Longrightarrow> snd (scan_tables S ts v u) = u"
  by (induction ts arbitrary: v) auto

lemma scan_tables_valid:
  "list_all (\<lambda>t. map_of S t \<noteq> None) ts \<Longrightarrow>
   fst (scan_tables S ts v u) = v @ concat (map (\<lambda>t. map lower (the (map_of S t))) ts)"
  by (induction ts arbitrary: v) auto

text \<open>
  The tables \<open>query_validator\<close> hands to \<open>validate_columns\<close> are keys of the mapping,
  and stay so when \<open>validate_columns\<close> puts them in lower case once more.
\<close>

lemma actual_tables_known:
  "list_all (\<lambda>t. map_of S t \<noteq> None)
     (map lower (filter (\<lambda>t. t \<in> set (map fst S)) (map lower ts)))"
  by (force simp add: list_all_iff lower_idem map_of_eq_None_iff)

lemma validate_columns_actual:
  "validate_columns (filter (\<lambda>t. t \<in> set (map fst S)) (map lower ts)) cols S = (True, [])
   \<or> (\<exists>msg. validate_columns (filter (\<lambda>t. t \<in> set (map fst S)) (map lower ts)) cols S
            = (False, [''Columns ['' @ msg]))"
proof -
  let ?ts = "map lower (filter (\<lambda>t. t \<in> set (map fst S)) (map lower ts))"
  obtain v u where vu: "scan_tables S ?ts [''*''] [] = (v, u)"
    by (cases "scan_tables S ?ts [''*''] []")
  have "u = []"
    using scan_tables_known [OF actual_tables_known, of S ts "[''*'']" "[]"] vu by simp
  then show ?thesis
    using vu by (simp add: validate_columns_def Let_def)
qed

lemma conformance_verdict:
  "conformance q S (map lower ts) cols ctes al = q
   \<or> (\<exists>msg. conformance q S (map lower ts) cols ctes al
            = ''Validation Error: Columns ['' @ msg)"
proof -
  let ?cl = "check_and_clean_columns cols ctes (base_table_aliases S al) (map fst S)"
  from validate_columns_actual [of S ts ?cl] show ?thesis
    by (auto simp add: conformance_def Let_def)
qed

lemma on_exception_prefix:
  "\<not> starts_with ''Validation Error: Query references undefined tables'' (on_exception e)"
  by (simp add: on_exception_def)

section \<open>Safety issues come first\<close>

lemma self_report_issues:
  "issues_of self_report = [''Only SELECT statements or CTEs (WITH...SELECT) are allowed.'']"
  by code_simp

text \<open>
  Claim C3. A non-empty issue list should make the safety report the verdict, without
  the parser being asked. \<open>query_validator\<close> does not look at the issue list: it compares
  the inspector's result with the query (source line 199). The text \<open>self_report\<close> is its
  own report, so the comparison finds nothing, the parser is asked, and with a parser that
  raises the verdict is the handler's message, not the safety report.
\<close>

theorem C3_self_report_reaches_parser:
  "issues_of self_report \<noteq> []
   \<and> query_validator (raising ''Not supported query type!'') self_report customers_schema
     = ''Validation Error: An unexpected issue occurred during validation. (Details: Not supported query type!)''
   \<and> query_validator (raising ''Not supported query type!'') self_report customers_schema
     \<noteq> issues_str (issues_of self_report)"
proof -
  have fp: "inspect_query self_report = self_report"
    by (simp add: inspect_query_rejects self_report_issues) (simp add: self_report_def)
  have exc: "on_exception ''Not supported query type!''
    = ''Validation Error: An unexpected issue occurred during validation. (Details: Not supported query type!)''"
    by code_simp
  have v: "query_validator (raising ''Not supported query type!'') self_report customers_schema
     = ''Validation Error: An unexpected issue occurred during validation. (Details: Not supported query type!)''"
    by (simp add: query_validator_def fp raising_def exc)
  show ?thesis
    unfolding v by (simp add: self_report_issues issues_str_def)
qed

section \<open>Tables the mapping does not know\<close>

lemma star_is_no_aggregate: "re_match agg_pattern ''*'' = None"
  by code_simp

lemma inventory_issues: "issues_of ''SELECT * FROM inventory;'' = []"
  by code_simp

text \<open>
  Claim C1. A query that names a table the mapping does not have should be rejected
  with the message about undefined tables. \<open>query_validator\<close> drops every such table
  before it calls \<open>validate_columns\<close> (source lines 235 to 238), so for scenario 4,
  \<^verbatim>\<open>SELECT * FROM inventory;\<close>, nothing is left to check and the query is accepted,
  whatever the mapping, as long as it has no table \<^verbatim>\<open>inventory\<close>.
\<close>

theorem C1_undefined_table_accepted:
  assumes "''inventory'' \<notin> set (map fst S)"
    and "parse ''SELECT * FROM inventory;''
         = Inr \<lparr>tables = [''inventory''], columns = [''*''], with_names = [],
                tables_aliases = Inr al\<rparr>"
  shows "query_validator parse ''SELECT * FROM inventory;'' S = ''SELECT * FROM inventory;''"
proof -
  have low: "lower ''inventory'' = ''inventory''"
    by code_simp
  have clean: "check_and_clean_columns [''*''] False ps (map fst S) = []" for ps
    by (simp add: check_and_clean_columns_def clean_column_def star_is_no_aggregate)
  have "conformance ''SELECT * FROM inventory;'' S [''inventory''] [''*''] False al
        = ''SELECT * FROM inventory;''"
    using assms(1) by (simp add: conformance_def Let_def clean validate_columns_def)
  then show ?thesis
    using assms(2)
    by (simp add: query_validator_def Let_def inspect_query_accepts [OF inventory_issues] low)
qed

theorem C1_undefined_table_accepted_witness:
  "''inventory'' \<notin> set (map fst (generate_table_mapping_from_create_statements customers_ddl))
   \<and> query_validator
        (parser_of \<lparr>tables = [''inventory''], columns = [''*''], with_names = [],
                     tables_aliases = Inr []\<rparr>)
        ''SELECT * FROM inventory;''
        (generate_table_mapping_from_create_statements customers_ddl)
      = ''SELECT * FROM inventory;''"
proof -
  have a: "''inventory'' \<notin> set (map fst (generate_table_mapping_from_create_statements customers_ddl))"
    by (simp add: customers_mapping customers_schema_def)
  show ?thesis
    using a C1_undefined_table_accepted [OF a, of _ "[]"]
    by (simp add: parser_of_def)
qed

text \<open>
  Claim C5, as stated: no verdict contains the text
  \<^verbatim>\<open>Query references undefined tables\<close>. An accepted query is returned as it is, so a
  query that holds the text in a string literal is a verdict that contains it.
\<close>

theorem C5_verdict_echoes_query:
  "str_contains ''Query references undefined tables''
     (query_validator (parser_of no_facts) literal_query customers_schema)"
proof -
  have i: "issues_of literal_query = []"
    by code_simp
  have v: "query_validator (parser_of no_facts) literal_query customers_schema = literal_query"
    by (simp add: query_validator_def Let_def inspect_query_accepts [OF i] parser_of_def
        no_facts_def)
  show ?thesis
    unfolding v by code_simp
qed

text \<open>
  Claim C5, amended. No verdict of \<open>query_validator\<close> begins with
  \<^verbatim>\<open>Validation Error: Query references undefined tables\<close>, for any parser, query and
  mapping; and on the table list \<open>query_validator\<close> passes, \<open>validate_columns\<close> either
  succeeds or reports columns: its branch for unknown tables is never taken.
\<close>

theorem C5_no_undefined_tables_verdict:
  "\<not> starts_with ''Validation Error: Query references undefined tables''
       (query_validator parse query S)
   \<and> (validate_columns (filter (\<lambda>t. t \<in> set (map fst S)) (map lower ts)) cols S = (True, [])
      \<or> (\<exists>msg. validate_columns (filter (\<lambda>t. t \<in> set (map fst S)) (map lower ts)) cols S
               = (False, [''Columns ['' @ msg])))"
proof -
  let ?T = "''Validation Error: Query references undefined tables''"
  have echo: "\<not> starts_with ?T query" if "inspect_query query = query"
  proof
    assume "starts_with ?T query"
    then obtain r where "query = ?T @ r"
      by (auto simp add: starts_with_iff)
    then have "query = CHR ''V'' # (''alidation Error: Query references undefined tables'' @ r)"
      by simp
    with inspect_query_V that show False
      by metis
  qed
  have report: "\<not> starts_with ?T (inspect_query query)" if "inspect_query query \<noteq> query"
  proof -
    from that have "inspect_query query = issues_str (issues_of query)"
      by (auto simp add: inspect_query_def Let_def split: if_splits)
    then show ?thesis
      by (simp add: issues_str_def)
  qed
  have conf: "\<not> starts_with ?T (conformance query S (map lower ts') cs ctes al)"
    if "inspect_query query = query" for ts' cs ctes al
    using conformance_verdict [of query S ts' cs ctes al] echo [OF that] by auto
  have "\<not> starts_with ?T (query_validator parse query S)"
  proof (cases "inspect_query query = query")
    case False
    with report show ?thesis
      by (simp add: query_validator_def Let_def)
  next
    case True
    show ?thesis
      using echo [OF True] conf [OF True]
      by (auto simp add: query_validator_def Let_def True on_exception_prefix
          split: sum.splits)
  qed
  with validate_columns_actual [of S ts cols] show ?thesis
    by blast
qed

theorem C5_no_undefined_tables_verdict_witness:
  "\<not> starts_with ''Validation Error: Query references undefined tables''
       (query_validator
          (parser_of \<lparr>tables = [''inventory''], columns = [''id''], with_names = [],
                       tables_aliases = Inr []\<rparr>)
          ''SELECT id FROM inventory;'' customers_schema)
   \<and> validate_columns
        (filter (\<lambda>t. t \<in> set (map fst customers_schema)) (map lower [''inventory'']))
        [''id''] customers_schema
      = (False, [''Columns [id] are not defined for the referenced tables []''])"
proof -
  have low: "lower ''inventory'' = ''inventory''"
    by code_simp
  have v: "validate_columns
        (filter (\<lambda>t. t \<in> set (map fst customers_schema)) (map lower [''inventory'']))
        [''id''] customers_schema
      = (False, [''Columns [id] are not defined for the referenced tables []''])"
    by (simp add: low customers_schema_def validate_columns_def)
  have "\<not> starts_with ''Validation Error: Query references undefined tables''
       (query_validator
          (parser_of \<lparr>tables = [''inventory''], columns = [''id''], with_names = [],
                       tables_aliases = Inr []\<rparr>)
          ''SELECT id FROM inventory;'' customers_schema)"
    using C5_no_undefined_tables_verdict by blast
  with v show ?thesis
    by blast
qed

section \<open>Columns the mapping does not know\<close>

text \<open>When every table is a key of the mapping, this is what \<open>validate_columns\<close> returns.\<close>

lemma validate_columns_known:
  assumes "list_all (\<lambda>t. map_of M (lower t) \<noteq> None) ts"
  shows "validate_columns ts cs M =
     (let bad = filter (\<lambda>c. c \<noteq> ''*''
                  \<and> c \<notin> (\<Union>t \<in> set ts. set (map lower (the (map_of M (lower t)))))) cs
      in if bad = [] then (True, [])
         else (False, [''Columns ['' @ str_join '', '' (sort (remdups bad))
                 @ ''] are not defined for the referenced tables [''
                 @ str_join '', '' (sort (remdups (map lower ts))) @ '']'']))"
proof -
  have k: "list_all (\<lambda>t. map_of M t \<noteq> None) (map lower ts)"
    using assms by (simp add: list_all_iff)
  obtain v u where vu: "scan_tables M (map lower ts) [''*''] [] = (v, u)"
    by (cases "scan_tables M (map lower ts) [''*''] []")
  have u: "u = []"
    using scan_tables_known [OF k, of "[''*'']" "[]"] vu by simp
  have v: "v = [''*''] @ concat (map (\<lambda>t. map lower (the (map_of M t))) (map lower ts))"
    using scan_tables_valid [OF k, of "[''*'']" "[]"] vu by simp
  have f: "filter (\<lambda>col. col \<notin> set v \<and> col \<noteq> ''*'') cs
      = filter (\<lambda>c. c \<noteq> ''*''
          \<and> c \<notin> (\<Union>t \<in> set ts. set (map lower (the (map_of M (lower t)))))) cs"
    unfolding v by (rule filter_cong) auto
  show ?thesis
    by (simp add: validate_columns_def vu u Let_def f del: set_concat)
qed

lemma discount_issues: "issues_of ''SELECT customer_id, discount_rate FROM customers;'' = []"
  by code_simp

lemma discount_columns:
  "check_and_clean_columns [''customer_id'', ''discount_rate''] False ps ns
   = [''customer_id'', ''discount_rate'']"
proof -
  have "re_match agg_pattern ''customer_id'' = None"
    "re_match agg_pattern ''discount_rate'' = None"
    "lower ''customer_id'' = ''customer_id''" "lower ''discount_rate'' = ''discount_rate''"
    by code_simp+
  then show ?thesis
    by (simp add: check_and_clean_columns_def clean_column_def)
qed

text \<open>
  Claim C8. Against a mapping in which \<^verbatim>\<open>customers\<close> has a column \<^verbatim>\<open>customer_id\<close>
  and none called \<^verbatim>\<open>discount_rate\<close>, the query of scenario 2 is rejected with the
  message that columns \<^verbatim>\<open>[discount_rate]\<close> are not defined for the referenced tables
  \<^verbatim>\<open>[customers]\<close>. In every such message of \<open>validate_columns\<close> the two lists are
  sorted and hold no element twice; the first holds columns that were to be validated,
  the second exactly the referenced tables in lower case.
\<close>

theorem C8_undefined_column:
  assumes "map_of S ''customers'' = Some cols"
    and "''customer_id'' \<in> set (map lower cols)"
    and "''discount_rate'' \<notin> set (map lower cols)"
    and "parse ''SELECT customer_id, discount_rate FROM customers;''
         = Inr \<lparr>tables = [''customers''], columns = [''customer_id'', ''discount_rate''],
                with_names = [], tables_aliases = Inr al\<rparr>"
  shows "query_validator parse ''SELECT customer_id, discount_rate FROM customers;'' S
         = ''Validation Error: Columns [discount_rate] are not defined for the referenced tables [customers]''
       \<and> (list_all (\<lambda>t. map_of M (lower t) \<noteq> None) ts
            \<and> validate_columns ts cs M = (False, [m]) \<longrightarrow>
          (\<exists>bad refs.
             m = ''Columns ['' @ str_join '', '' bad
                 @ ''] are not defined for the referenced tables [''
                 @ str_join '', '' refs @ '']''
             \<and> sorted bad \<and> distinct bad \<and> set bad \<subseteq> set cs
             \<and> sorted refs \<and> distinct refs \<and> set refs = set (map lower ts)))"
proof -
  have low: "lower ''customers'' = ''customers''"
    by code_simp
  have key: "''customers'' \<in> set (map fst S)"
    using assms(1) by (metis map_of_eq_None_iff option.distinct(1) set_map)
  have k: "list_all (\<lambda>t. map_of S (lower t) \<noteq> None) [''customers'']"
    using assms(1) by (simp add: low)
  have "validate_columns [''customers''] [''customer_id'', ''discount_rate''] S
        = (False, [''Columns [discount_rate] are not defined for the referenced tables [customers]''])"
    using assms(1-3) by (simp add: validate_columns_known [OF k] low Let_def)
  then have "conformance ''SELECT customer_id, discount_rate FROM customers;'' S [''customers'']
          [''customer_id'', ''discount_rate''] False al
        = ''Validation Error: Columns [discount_rate] are not defined for the referenced tables [customers]''"
    using key by (simp add: conformance_def Let_def discount_columns)
  then have a: "query_validator parse ''SELECT customer_id, discount_rate FROM customers;'' S
         = ''Validation Error: Columns [discount_rate] are not defined for the referenced tables [customers]''"
    using assms(4)
    by (simp add: query_validator_def Let_def inspect_query_accepts [OF discount_issues] low)
  have b: "\<exists>bad refs.
             m = ''Columns ['' @ str_join '', '' bad
                 @ ''] are not defined for the referenced tables [''
                 @ str_join '', '' refs @ '']''
             \<and> sorted bad \<and> distinct bad \<and> set bad \<subseteq> set cs
             \<and> sorted refs \<and> distinct refs \<and> set refs = set (map lower ts)"
    if "list_all (\<lambda>t. map_of M (lower t) \<noteq> None) ts" "validate_columns ts cs M = (False, [m])"
  proof -
    let ?bad = "filter (\<lambda>c. c \<noteq> ''*''
                  \<and> c \<notin> (\<Union>t \<in> set ts. set (map lower (the (map_of M (lower t)))))) cs"
    have "m = ''Columns ['' @ str_join '', '' (sort (remdups ?bad))
                 @ ''] are not defined for the referenced tables [''
                 @ str_join '', '' (sort (remdups (map lower ts))) @ '']''"
      using that(2) unfolding validate_columns_known [OF that(1)] Let_def
      by (simp split: if_splits)
    moreover have "sorted (sort (remdups ?bad))" "distinct (sort (remdups ?bad))"
      "set (sort (remdups ?bad)) \<subseteq> set cs"
      "sorted (sort (remdups (map lower ts)))" "distinct (sort (remdups (map lower ts)))"
      "set (sort (remdups (map lower ts))) = set (map lower ts)"
      by auto
    ultimately show ?thesis
      by blast
  qed
  from a b show ?thesis
    by blast
qed

theorem C8_undefined_column_witness:
  "map_of (generate_table_mapping_from_create_statements customers_ddl) ''customers''
     = Some [''*'', ''customer_id'', ''first_name'', ''email'']
   \<and> ''customer_id'' \<in> set (map lower [''*'', ''customer_id'', ''first_name'', ''email''])
   \<and> ''discount_rate'' \<notin> set (map lower [''*'', ''customer_id'', ''first_name'', ''email''])
   \<and> query_validator (parser_of discount_facts)
        ''SELECT customer_id, discount_rate FROM customers;''
        (generate_table_mapping_from_create_statements customers_ddl)
      = ''Validation Error: Columns [discount_rate] are not defined for the referenced tables [customers]''"
proof -
  have a: "map_of (generate_table_mapping_from_create_statements customers_ddl) ''customers''
     = Some [''*'', ''customer_id'', ''first_name'', ''email'']"
    by (simp add: customers_mapping customers_schema_def)
  have l: "map lower [''*'', ''customer_id'', ''first_name'', ''email'']
           = [''*'', ''customer_id'', ''first_name'', ''email'']"
    by code_simp
  have b: "''customer_id'' \<in> set (map lower [''*'', ''customer_id'', ''first_name'', ''email''])"
    unfolding l by simp
  have c: "''discount_rate'' \<notin> set (map lower [''*'', ''customer_id'', ''first_name'', ''email''])"
    unfolding l by simp
  have d: "parser_of discount_facts ''SELECT customer_id, discount_rate FROM customers;''
         = Inr \<lparr>tables = [''customers''], columns = [''customer_id'', ''discount_rate''],
                with_names = [], tables_aliases = Inr []\<rparr>"
    by (simp add: parser_of_def discount_facts_def)
  have "query_validator (parser_of discount_facts)
        ''SELECT customer_id, discount_rate FROM customers;''
        (generate_table_mapping_from_create_statements customers_ddl)
      = ''Validation Error: Columns [discount_rate] are not defined for the referenced tables [customers]''"
    using C8_undefined_column
      [of "generate_table_mapping_from_create_statements customers_ddl"
          "[''*'', ''customer_id'', ''first_name'', ''email'']" "parser_of discount_facts" "[]"
          "[]" "[]" "[]" "[]"] a b c d
    by blast
  with a b c show ?thesis
    by blast
qed

section \<open>Columns of a query with CTEs\<close>

lemma clean_column_unprefixed: "\<not> has_dot c \<Longrightarrow> clean_column True ps c = []"
  by (simp add: clean_column_def has_dot_def)

lemma concat_map_filter_empty:
  "(\<And>x. \<not> P x \<Longrightarrow> f x = []) \<Longrightarrow> concat (map f (filter P xs)) = concat (map f xs)"
  by (induction xs) auto

lemma check_and_clean_unprefixed:
  "check_and_clean_columns (filter has_dot cols) True al ns
   = check_and_clean_columns cols True al ns"
  by (simp add: check_and_clean_columns_def concat_map_filter_empty clean_column_unprefixed)

lemma check_and_clean_member:
  assumes "x \<in> set (check_and_clean_columns cols True al ns)"
  shows "\<exists>c \<in> set cols. has_dot c \<and> re_match agg_pattern c = None
           \<and> lower (takeWhile (\<lambda>d. d \<noteq> CHR ''.'') c) \<in> set al \<union> set ns
           \<and> x = lower (drop 1 (dropWhile (\<lambda>d. d \<noteq> CHR ''.'') c))"
proof -
  from assms obtain c where c: "c \<in> set cols" "x \<in> set (clean_column True (al @ ns) c)"
    by (auto simp add: check_and_clean_columns_def)
  from c(2) have "has_dot c \<and> re_match agg_pattern c = None
      \<and> lower (takeWhile (\<lambda>d. d \<noteq> CHR ''.'') c) \<in> set al \<union> set ns
      \<and> x = lower (drop 1 (dropWhile (\<lambda>d. d \<noteq> CHR ''.'') c))"
    by (cases "re_match agg_pattern c")
      (auto simp add: clean_column_def has_dot_def Let_def split: if_splits)
  with c(1) show ?thesis
    by blast
qed

text \<open>
  Claim C9. With CTEs present, a value reaches the validation set only from a raw
  column that has a dot, is no aggregate call, and whose text before the first dot, in
  lower case, is a known alias or a known table name; the value is the rest of the column
  in lower case. Columns without a dot are never validated: deleting them from what the
  parser reports leaves the verdict as it was, so none of them can cause a rejection.
\<close>

theorem C9_cte_columns:
  "(x \<in> set (check_and_clean_columns cols True al ns) \<longrightarrow>
      (\<exists>c \<in> set cols. has_dot c \<and> re_match agg_pattern c = None
         \<and> lower (takeWhile (\<lambda>d. d \<noteq> CHR ''.'') c) \<in> set al \<union> set ns
         \<and> x = lower (drop 1 (dropWhile (\<lambda>d. d \<noteq> CHR ''.'') c))))
   \<and> (parse query = Inr facts \<and> with_names facts \<noteq> []
        \<and> parse' query = Inr (facts\<lparr>columns := filter has_dot (columns facts)\<rparr>) \<longrightarrow>
      query_validator parse query S = query_validator parse' query S)"
  using check_and_clean_member [of x cols al ns]
  by (auto simp add: query_validator_def Let_def conformance_def check_and_clean_unprefixed
      split: sum.splits)

theorem C9_cte_columns_witness:
  "check_and_clean_columns [''total'', ''c.email'', ''r.total''] True [''c''] [''customers'']
     = [''email'']
   \<and> with_names cte_facts \<noteq> []
   \<and> query_validator (parser_of cte_facts) cte_query customers_schema = cte_query
   \<and> query_validator
        (parser_of (cte_facts\<lparr>columns := filter has_dot (columns cte_facts)\<rparr>))
        cte_query customers_schema = cte_query"
proof -
  have a: "check_and_clean_columns [''total'', ''c.email'', ''r.total''] True [''c''] [''customers'']
     = [''email'']"
    by code_simp
  have b: "with_names cte_facts \<noteq> []"
    by (simp add: cte_facts_def)
  have c: "query_validator (parser_of cte_facts) cte_query customers_schema = cte_query"
    by code_simp
  have "parser_of cte_facts cte_query = Inr cte_facts \<and> with_names cte_facts \<noteq> []
        \<and> parser_of (cte_facts\<lparr>columns := filter has_dot (columns cte_facts)\<rparr>) cte_query
          = Inr (cte_facts\<lparr>columns := filter has_dot (columns cte_facts)\<rparr>)"
    by (simp add: parser_of_def b)
  with C9_cte_columns [of _ _ _ _ "parser_of cte_facts" cte_query cte_facts
      "parser_of (cte_facts\<lparr>columns := filter has_dot (columns cte_facts)\<rparr>)" customers_schema]
  have "query_validator (parser_of cte_facts) cte_query customers_schema
        = query_validator
            (parser_of (cte_facts\<lparr>columns := filter has_dot (columns cte_facts)\<rparr>))
            cte_query customers_schema"
    by blast
  with a b c show ?thesis
    by simp
qed

section \<open>Queries that pass unchanged\<close>









section \<open>The matcher finds what the patterns mean\<close>

lemma adv_Nil [simp]: "adv pv [] = pv"
  by (simp add: adv_def)

lemma adv_Cons [simp]: "adv pv (c # u) = adv (Some c) u"
  by (simp add: adv_def)

lemma adv_append [simp]: "adv (adv pv v) w = adv pv (v @ w)"
  by (simp add: adv_def)

lemma adv_append_Cons [simp]: "adv pv (u @ c # v) = adv (Some c) v"
  by (simp add: adv_def)

lemma star_states_iff:
  "(pv', s', g') \<in> set (star_states p pv s g)
   \<longleftrightarrow> (\<exists>u. s = u @ s' \<and> list_all p u \<and> pv' = adv pv u \<and> g' = g)"
proof (induction s arbitrary: pv)
  case Nil
  show ?case by auto
next
  case (Cons c cs)
  show ?case
  proof (cases "p c")
    case False
    then show ?thesis
      by (auto simp add: Cons_eq_append_conv)
  next
    case True
    then show ?thesis
      by (auto simp add: Cons.IH Cons_eq_append_conv)
  qed
qed

lemma lazy_states_iff:
  "(pv', s', g') \<in> set (lazy_states p pv s g)
   \<longleftrightarrow> (\<exists>u. s = u @ s' \<and> list_all p u \<and> pv' = adv pv u \<and> g' = g)"
proof (induction s arbitrary: pv)
  case Nil
  show ?case by auto
next
  case (Cons c cs)
  show ?case
  proof (cases "p c")
    case False
    then show ?thesis
      by (auto simp add: Cons_eq_append_conv)
  next
    case True
    then show ?thesis
      by (auto simp add: Cons.IH Cons_eq_append_conv)
  qed
qed


text \<open>The matcher lists exactly the matches of the declarative reading.\<close>

lemma ms_sem:
  "(\<exists>g'. (pv', s', g') \<in> set (ms r (pv, s, g)))
   \<longleftrightarrow> (\<exists>u. s = u @ s' \<and> sem r pv u s' \<and> pv' = adv pv u)"
proof (induction r arbitrary: pv s g pv' s')
  case Eps
  show ?case by auto
next
  case (Cls p)
  show ?case by (cases s) auto
next
  case (Seq a b)
  have "(\<exists>g'. (pv', s', g') \<in> set (ms (Seq a b) (pv, s, g)))
        \<longleftrightarrow> (\<exists>pv1 s1. (\<exists>g1. (pv1, s1, g1) \<in> set (ms a (pv, s, g))
                \<and> (\<exists>g'. (pv', s', g') \<in> set (ms b (pv1, s1, g1)))))"
    by auto
  also have "\<dots> \<longleftrightarrow> (\<exists>pv1 s1. (\<exists>g1. (pv1, s1, g1) \<in> set (ms a (pv, s, g)))
                \<and> (\<exists>w. s1 = w @ s' \<and> sem b pv1 w s' \<and> pv' = adv pv1 w))"
    unfolding Seq.IH(2) by blast
  also have "\<dots> \<longleftrightarrow> (\<exists>pv1 s1. (\<exists>v. s = v @ s1 \<and> sem a pv v s1 \<and> pv1 = adv pv v)
                \<and> (\<exists>w. s1 = w @ s' \<and> sem b pv1 w s' \<and> pv' = adv pv1 w))"
    unfolding Seq.IH(1) by blast
  also have "\<dots> \<longleftrightarrow> (\<exists>u. s = u @ s' \<and> sem (Seq a b) pv u s' \<and> pv' = adv pv u)"
    by (auto simp add: adv_append [symmetric] simp del: adv_append) force+
  finally show ?case .
next
  case (Alt a b)
  have "(\<exists>g'. (pv', s', g') \<in> set (ms (Alt a b) (pv, s, g)))
        \<longleftrightarrow> (\<exists>g'. (pv', s', g') \<in> set (ms a (pv, s, g)))
            \<or> (\<exists>g'. (pv', s', g') \<in> set (ms b (pv, s, g)))"
    by auto
  then show ?case
    unfolding Alt.IH by auto
next
  case (Star p)
  show ?case by (simp add: star_states_iff)
next
  case (Lazy p)
  show ?case by (simp add: lazy_states_iff)
next
  case WordB
  show ?case by auto
next
  case Bos
  show ?case by auto
next
  case Eos
  show ?case by auto
next
  case (NotAhead a)
  have "ms a (pv, s, g) = [] \<longleftrightarrow> \<not> (\<exists>pv1 s1. \<exists>g1. (pv1, s1, g1) \<in> set (ms a (pv, s, g)))"
    by (cases "ms a (pv, s, g)") auto
  also have "\<dots> \<longleftrightarrow> \<not> (\<exists>v w. s = v @ w \<and> sem a pv v w)"
    unfolding NotAhead.IH by blast
  finally show ?case
    by auto
next
  case (Grp a)
  have "(\<exists>g'. (pv', s', g') \<in> set (ms (Grp a) (pv, s, g)))
        \<longleftrightarrow> (\<exists>g'. (pv', s', g') \<in> set (ms a (pv, s, g)))"
    by force
  then show ?case
    unfolding Grp.IH by simp
qed







section \<open>Queries without tables\<close>
































section \<open>The semicolon rule\<close>

text \<open>
  The messages of the first four rules never hold a backslash: they are fixed texts, or
  quote a text matched by one of the unsafe patterns, none of which admits a backslash.
\<close>

lemma sem_alphabet: "sem r pv u s' \<Longrightarrow> list_all (alphabet r) u"
  by (induction r arbitrary: pv u s') (auto simp add: list_all_iff)

lemma search_from_match:
  "search_from r pv s = Some (s1, st) \<Longrightarrow> \<exists>pv1. st \<in> set (ms r (pv1, s1, None))"
proof (induction s arbitrary: pv)
  case Nil
  then have "st \<in> set (ms r (pv, s1, None))"
    by (cases "ms r (pv, [], None)") auto
  then show ?case ..
next
  case (Cons c cs)
  show ?case
  proof (cases "ms r (pv, c # cs, None)")
    case Nil
    with Cons show ?thesis by simp
  next
    case (Cons x xs)
    with Cons.prems have "st \<in> set (ms r (pv, s1, None))"
      by auto
    then show ?thesis ..
  qed
qed

lemma group0_alphabet:
  assumes "re_search r s = Some m"
  shows "list_all (alphabet r) (group0 m)"
proof -
  obtain s1 pv' s' g' where m: "m = (s1, pv', s', g')"
    by (cases m) auto
  with assms search_from_match obtain pv1 where "(pv', s', g') \<in> set (ms r (pv1, s1, None))"
    unfolding re_search_def by blast
  then obtain u where u: "s1 = u @ s'" "sem r pv1 u s'"
    using ms_sem [of pv' s' r pv1 s1 None] by blast
  then have "group0 m = u"
    by (simp add: group0_def m rest_of_def)
  with sem_alphabet [OF u(2)] show ?thesis
    by simp
qed

lemma set_strip: "set (strip s) \<subseteq> set s"
  using set_dropWhileD [of _ is_space "rev (dropWhile is_space s)"] set_dropWhileD [of _ is_space s]
  by (auto simp add: strip_def)

lemma starts_with_set: "starts_with n h \<Longrightarrow> set n \<subseteq> set h"
  by (induction n h rule: starts_with.induct) auto

lemma str_contains_set: "str_contains n h \<Longrightarrow> set n \<subseteq> set h"
proof (induction h)
  case Nil
  then show ?case by simp
next
  case (Cons a h)
  from Cons.prems have "starts_with n (a # h) \<or> str_contains n h"
    by simp
  then show ?case
  proof
    assume "starts_with n (a # h)"
    then show ?thesis by (rule starts_with_set)
  next
    assume "str_contains n h"
    then have "set n \<subseteq> set h" by (rule Cons.IH)
    then show ?thesis by auto
  qed
qed

lemma unsafe_alphabet: "r \<in> set unsafe_keywords \<Longrightarrow> \<not> alphabet r (CHR 0x5C)"
  by (auto simp add: unsafe_keywords_def lit_def ci_def chr_def is_space_def lower_char_def
      is_upper_def)

lemma no_backslash_start: "i \<in> set (start_issues q) \<Longrightarrow> CHR 0x5C \<notin> set i"
  by (auto simp add: start_issues_def split: if_splits)

lemma no_backslash_keyword: "i \<in> set (keyword_issues q) \<Longrightarrow> CHR 0x5C \<notin> set i"
  by (auto simp add: keyword_issues_def disallowed_keywords_def sq_def split: if_splits)

lemma no_backslash_limit: "i \<in> set (limit_issues q) \<Longrightarrow> CHR 0x5C \<notin> set i"
  by (auto simp add: limit_issues_def split: if_splits)

lemma no_backslash_unsafe:
  assumes "i \<in> set (unsafe_issues q)"
  shows "CHR 0x5C \<notin> set i"
proof -
  from assms obtain r where r: "r \<in> set unsafe_keywords"
    and c: "i \<in> set (case re_search r q of None \<Rightarrow> []
        | Some m \<Rightarrow> [''Potentially unsafe SQL pattern '' @ sq @ strip (group0 m) @ sq
                     @ '' detected.''])"
    unfolding unsafe_issues_def set_concat set_map by blast
  from c obtain m where m: "re_search r q = Some m"
    and i: "i = ''Potentially unsafe SQL pattern '' @ sq @ strip (group0 m) @ sq @ '' detected.''"
    by (cases "re_search r q") auto
  have "CHR 0x5C \<notin> set (group0 m)"
    using group0_alphabet [OF m] unsafe_alphabet [OF r] by (auto simp add: list_all_iff)
  then have "CHR 0x5C \<notin> set (strip (group0 m))"
    using set_strip by blast
  then show ?thesis
    unfolding i by (simp add: sq_def)
qed

lemma never_flagged:
  "\<not> is_already_flagged
        (start_issues q @ keyword_issues q @ unsafe_issues q @ limit_issues q)"
proof -
  have b: "CHR 0x5C \<in> set semicolon_marker"
    by (simp add: semicolon_marker_def)
  have "\<not> str_contains semicolon_marker i"
    if "i \<in> set (start_issues q @ keyword_issues q @ unsafe_issues q @ limit_issues q)" for i
  proof
    assume "str_contains semicolon_marker i"
    then have "CHR 0x5C \<in> set i"
      using str_contains_set b by blast
    with that no_backslash_start no_backslash_keyword no_backslash_unsafe no_backslash_limit
    show False
      by (metis Un_iff set_append)
  qed
  then show ?thesis
    unfolding is_already_flagged_def list_ex_iff by blast
qed

lemma semicolon_always_reported:
  "found semicolon_re (strip q) \<Longrightarrow>
   ''Avoid the use of semicolons (;) except possibly at the very end of the query.''
     \<in> set (issues_of q)"
  by (simp add: issues_of_def Let_def semicolon_issues_def never_flagged)

text \<open>
  Claim C4. When the \<^verbatim>\<open>;--\<close> pattern has already reported a semicolon, the general
  semicolon issue should be left out. On the two-line query \<^verbatim>\<open>SELECT a;--\<close>,
  \<^verbatim>\<open>FROM t\<close> the inspector reports both. The test of source line 114 looks for the
  pattern's own text, backslash included, in messages that quote the matched text, so it
  never succeeds: for every query with a semicolon that is not at the end, the general
  issue is reported.
\<close>

theorem C4_semicolon_reported_twice:
  "issues_of (''SELECT a;--'' @ [CHR 0x0A] @ ''FROM t'')
   = [''Potentially unsafe SQL pattern '' @ sq @ '';--'' @ sq @ '' detected.'',
      ''Avoid the use of semicolons (;) except possibly at the very end of the query.'']
   \<and> (found semicolon_re (strip q) \<longrightarrow>
        ''Avoid the use of semicolons (;) except possibly at the very end of the query.''
          \<in> set (issues_of q))"
proof -
  have "issues_of (''SELECT a;--'' @ [CHR 0x0A] @ ''FROM t'')
   = [''Potentially unsafe SQL pattern '' @ sq @ '';--'' @ sq @ '' detected.'',
      ''Avoid the use of semicolons (;) except possibly at the very end of the query.'']"
    by code_simp
  with semicolon_always_reported [of q] show ?thesis
    by blast
qed

theorem C4_semicolon_reported_twice_witness:
  "found semicolon_re (strip semicolon_query)
   \<and> found (seqs [chr CHR '';'', Star is_space, lit ''--'']) semicolon_query
   \<and> ''Avoid the use of semicolons (;) except possibly at the very end of the query.''
       \<in> set (issues_of semicolon_query)"
proof -
  have a: "found semicolon_re (strip semicolon_query)"
    by code_simp
  have b: "found (seqs [chr CHR '';'', Star is_space, lit ''--'']) semicolon_query"
    by code_simp
  from a C4_semicolon_reported_twice [of semicolon_query] have
    "''Avoid the use of semicolons (;) except possibly at the very end of the query.''
       \<in> set (issues_of semicolon_query)"
    by blast
  with a b show ?thesis
    by blast
qed

end
